theory Spec2Isabelle
  imports Complex_Main "HOL-Library.Sublist"
begin

section \<open>Data model\<close>

text \<open>
  A key element is a Python string or a number. Numbers (and all times and durations
  below) are exact rationals: the rounding of Python floats is not modelled.
\<close>

datatype elt = Str string | Num rat

text \<open>Stored values, tags and results: \<open>PyNone\<close>, a string, a number or a tuple.\<close>

datatype pyval = PyNone | PyStr string | PyNum rat | PyTuple "pyval list"

text \<open>
  The exceptions of the source. \<open>PathMismatch\<close> is the
  \<^verbatim>\<open>Exception("Given DiskCache and DataStore paths do not match!")\<close> of
  \<^verbatim>\<open>init_cache\<close>; \<open>EngineFailure\<close> is any error the storage engine raises
  by itself (timeout, integrity, disk).
\<close>

datatype error =
    IndexError
  | AttributeError
  | TypeError
  | ZeroDivisionError
  | KeyError elt
  | PathMismatch
  | EngineFailure string

text \<open>
  The \<^verbatim>\<open>key\<close> argument of the public operations: a tuple or list of elements
  (\<open>Seq\<close>), which is encoded by \<^verbatim>\<open>makey\<close>, or anything else (\<open>Lit\<close>), which is
  handed to the engine as it is.
\<close>

datatype key_arg = Seq "elt list" | Lit elt

text \<open>What \<^verbatim>\<open>makey\<close> returns: the joined string, or the element list when \<^verbatim>\<open>as_tuple\<close>.\<close>

datatype made = Joined string | Elts "elt list"

text \<open>
  The argument \<^verbatim>\<open>match_elts\<close> of \<^verbatim>\<open>get_startswith\<close>: a list or tuple, a single
  string or number, or a value of any other type (\<open>Other\<close>).
\<close>

datatype match_arg = Key key_arg | Other

text \<open>
  What \<^verbatim>\<open>items\<close> and \<^verbatim>\<open>get_startswith\<close> return: a list whose items are keys
  (\<open>K\<close>, with \<^verbatim>\<open>keys_only\<close>) or key-value pairs (\<open>KV\<close>), or a dict.
\<close>

datatype item = K elt | KV elt pyval

datatype listing = Listed "item list" | Dict "elt \<rightharpoonup> pyval"

type_synonym row = "elt \<times> (pyval \<times> rat option \<times> pyval)"

text \<open>
  Modelled from the spec: the storage engine handle (\<^verbatim>\<open>diskcache.FanoutCache\<close>), which
  is imported by the source and not part of it. A handle is bound to a directory, has a
  shard count, a timeout and the tag-index flag, and holds its entries as rows
  (key, (value, expiration time, tag)) in iteration order. \<open>opened\<close> tells whether the
  handle holds an open connection. \<open>faults\<close> is the script of the environment: each
  engine call consumes its head, and \<open>Some msg\<close> makes that call raise. \<open>warnings\<close>
  and \<open>disk_bytes\<close> are what \<^verbatim>\<open>check\<close> and \<^verbatim>\<open>volume\<close> report.
\<close>

record fanout =
  directory :: string
  count :: nat
  fc_timeout :: rat
  fc_tag_index :: bool
  rows :: "row list"
  opened :: bool
  faults :: "string option list"
  warnings :: "string list"
  disk_bytes :: nat

text \<open>
  The \<^verbatim>\<open>DataStore\<close> object: the class attributes \<^verbatim>\<open>name\<close> and \<^verbatim>\<open>delim\<close>, the
  attributes set by \<^verbatim>\<open>__init__\<close>, and the reference to the live handle
  (\<open>None\<close> until \<^verbatim>\<open>init_cache\<close> has run).
\<close>

record datastore =
  name :: string
  delim :: string
  cache_path :: string
  shards :: nat
  timeout :: rat
  expire :: "rat option"
  tag_index :: bool
  cache :: "fanout option"

section \<open>Key encoding\<close>

text \<open>\<^verbatim>\<open>args[0].startswith(p)\<close>: only a string has the method.\<close>

fun startswith :: "elt \<Rightarrow> string \<Rightarrow> error + bool" where
  "startswith (Str s) p = Inr (prefix p s)"
| "startswith (Num n) p = Inl AttributeError"

text \<open>\<^verbatim>\<open>delim.join(elts)\<close>: every item must be a string, else \<^verbatim>\<open>TypeError\<close>.\<close>

fun join :: "string \<Rightarrow> elt list \<Rightarrow> error + string" where
  "join d [] = Inr []"
| "join d (Num n # es) = Inl TypeError"
| "join d [Str s] = Inr s"
| "join d (Str s # e # es) =
     (case join d (e # es) of Inl x \<Rightarrow> Inl x | Inr r \<Rightarrow> Inr (s @ d @ r))"

text \<open>
  Lines 88-89 of \<^verbatim>\<open>makey\<close>: the element list. \<^verbatim>\<open>not self.name or ...\<close> short-circuits,
  so \<^verbatim>\<open>args[0]\<close> is only read when the name is non-empty.
\<close>

definition makey_elts :: "datastore \<Rightarrow> elt list \<Rightarrow> error + elt list" where
  "makey_elts ds args =
     (if name ds = [] then Inr args
      else (case args of
              [] \<Rightarrow> Inl IndexError
            | a # _ \<Rightarrow>
                (case startswith a (name ds @ delim ds) of
                   Inl x \<Rightarrow> Inl x
                 | Inr b \<Rightarrow> Inr ((if b then [] else [Str (name ds)]) @ args))))"

definition makey :: "datastore \<Rightarrow> elt list \<Rightarrow> bool \<Rightarrow> error + made" where
  "makey ds args as_tuple =
     (case makey_elts ds args of
        Inl x \<Rightarrow> Inl x
      | Inr elts \<Rightarrow>
          (if as_tuple then Inr (Elts elts)
           else (case join (delim ds) elts of Inl x \<Rightarrow> Inl x | Inr s \<Rightarrow> Inr (Joined s))))"

text \<open>\<^verbatim>\<open>self.makey(*args)\<close> with \<^verbatim>\<open>as_tuple\<close> at its default: the joined string.\<close>

definition makey_str :: "datastore \<Rightarrow> elt list \<Rightarrow> error + string" where
  "makey_str ds args =
     (case makey ds args False of
        Inl x \<Rightarrow> Inl x
      | Inr (Joined s) \<Rightarrow> Inr s
      | Inr (Elts es) \<Rightarrow> join (delim ds) es)"

text \<open>
  The first lines of \<^verbatim>\<open>get\<close>, \<^verbatim>\<open>set\<close>, \<^verbatim>\<open>add\<close> and \<^verbatim>\<open>delete\<close>:
  \<^verbatim>\<open>if isinstance(key, (tuple, list)): key = self.makey(*key)\<close>.
\<close>

definition key_of :: "datastore \<Rightarrow> key_arg \<Rightarrow> error + elt" where
  "key_of ds key =
     (case key of
        Lit k \<Rightarrow> Inr k
      | Seq es \<Rightarrow> (case makey_str ds es of Inl x \<Rightarrow> Inl x | Inr s \<Rightarrow> Inr (Str s)))"

section \<open>The storage engine\<close>

text \<open>
  Modelled from the spec: the operations of the engine handle that the source calls
  (section 6 of the specification); the engine's code is not part of the repository.
  \<open>now\<close> is the engine's clock at the call. \<^verbatim>\<open>set\<close> and \<^verbatim>\<open>add\<close> take \<^verbatim>\<open>expire\<close>
  as "seconds after set" and store the expiration time \<open>now + expire\<close>; an entry whose
  expiration time has been reached counts as absent for reads, membership and deletion,
  and stays in the key iteration until it is purged or overwritten.
\<close>

type_synonym entry = "pyval \<times> rat option \<times> pyval"

text \<open>Modelled from the spec: an entry has not expired at time \<open>now\<close>.\<close>

definition live :: "rat \<Rightarrow> entry \<Rightarrow> bool" where
  "live now e = (case fst (snd e) of None \<Rightarrow> True | Some t \<Rightarrow> now < t)"

text \<open>Modelled from the spec: the row a read finds under a key, if it has not expired.\<close>

definition lookup :: "rat \<Rightarrow> row list \<Rightarrow> elt \<Rightarrow> entry option" where
  "lookup now rs k =
     (case map_of rs k of
        None \<Rightarrow> None
      | Some e \<Rightarrow> if live now e then Some e else None)"

text \<open>
  Modelled from the spec: writing a row. An existing key keeps its place in the
  iteration, a new key goes last.
\<close>

fun upsert :: "elt \<Rightarrow> entry \<Rightarrow> row list \<Rightarrow> row list" where
  "upsert k e [] = [(k, e)]"
| "upsert k e ((k', e') # rs) =
     (if k' = k then (k, e) # rs else (k', e') # upsert k e rs)"

text \<open>
  Modelled from the spec: every engine call opens the handle and consumes the head of
  the fault script.
\<close>

definition enter :: "fanout \<Rightarrow> string option \<times> fanout" where
  "enter c =
     (case faults c of
        [] \<Rightarrow> (None, c\<lparr>opened := True\<rparr>)
      | f # fs \<Rightarrow> (f, c\<lparr>opened := True, faults := fs\<rparr>))"

text \<open>
  Modelled from the spec: the constructor
  \<^verbatim>\<open>FanoutCache(directory, shards=, timeout=, tag_index=)\<close>.
  \<open>at_path\<close> is what the environment holds for that directory (rows, fault script,
  reports); the new handle is open. Zero shards make the engine's constructor fail.
\<close>

definition FanoutCache :: "string \<Rightarrow> nat \<Rightarrow> rat \<Rightarrow> bool \<Rightarrow> fanout \<Rightarrow> error + fanout" where
  "FanoutCache dir n t ti at_path =
     (if n = 0 then Inl ZeroDivisionError
      else Inr (at_path\<lparr>directory := dir, count := n, fc_timeout := t,
                        fc_tag_index := ti, opened := True\<rparr>))"

text \<open>
  Modelled from the spec:
  \<^verbatim>\<open>cache.get(key, default=, expire_time=True, tag=True)\<close>: the triple
  (value, expiration time, tag), or \<open>(default, None, None)\<close> for an absent key.
\<close>

definition fc_get :: "rat \<Rightarrow> fanout \<Rightarrow> elt \<Rightarrow> pyval \<Rightarrow> (error + entry) \<times> fanout" where
  "fc_get now c k dflt =
     (case enter c of
        (Some m, c') \<Rightarrow> (Inl (EngineFailure m), c')
      | (None, c') \<Rightarrow>
          (case lookup now (rows c') k of
             None \<Rightarrow> (Inr (dflt, None, PyNone), c')
           | Some e \<Rightarrow> (Inr e, c')))"

text \<open>
  Modelled from the spec: what the engine's \<^verbatim>\<open>get\<close> hands back for the flags \<^verbatim>\<open>expire_time\<close> and \<^verbatim>\<open>tag\<close>: the value
  alone, or a tuple with the expiration time and the tag as requested.
\<close>

definition shape :: "bool \<Rightarrow> bool \<Rightarrow> entry \<Rightarrow> pyval" where
  "shape want_expire_time want_tag e =
     (case e of (v, t, g) \<Rightarrow>
        (let tv = (case t of None \<Rightarrow> PyNone | Some x \<Rightarrow> PyNum x)
         in if want_expire_time \<and> want_tag then PyTuple [v, tv, g]
            else if want_expire_time then PyTuple [v, tv]
            else if want_tag then PyTuple [v, g]
            else v))"

text \<open>
  Modelled from the spec: \<^verbatim>\<open>cache.set(key, value, expire=, tag=)\<close> writes
  unconditionally; the entry expires \<^verbatim>\<open>expire\<close> seconds after the write.
\<close>

definition fc_set ::
  "rat \<Rightarrow> fanout \<Rightarrow> elt \<Rightarrow> pyval \<Rightarrow> rat option \<Rightarrow> pyval \<Rightarrow> (error + bool) \<times> fanout" where
  "fc_set now c k v ttl tg =
     (case enter c of
        (Some m, c') \<Rightarrow> (Inl (EngineFailure m), c')
      | (None, c') \<Rightarrow>
          (Inr True, c'\<lparr>rows := upsert k (v, map_option (\<lambda>e. now + e) ttl, tg) (rows c')\<rparr>))"

text \<open>
  Modelled from the spec: \<^verbatim>\<open>cache.add(key, value, expire=, tag=)\<close> writes only when
  the key is absent and returns whether it wrote.
\<close>

definition fc_add ::
  "rat \<Rightarrow> fanout \<Rightarrow> elt \<Rightarrow> pyval \<Rightarrow> rat option \<Rightarrow> pyval \<Rightarrow> (error + bool) \<times> fanout" where
  "fc_add now c k v ttl tg =
     (case enter c of
        (Some m, c') \<Rightarrow> (Inl (EngineFailure m), c')
      | (None, c') \<Rightarrow>
          (case lookup now (rows c') k of
             Some e \<Rightarrow> (Inr False, c')
           | None \<Rightarrow>
               (Inr True,
                c'\<lparr>rows := upsert k (v, map_option (\<lambda>e. now + e) ttl, tg) (rows c')\<rparr>)))"

text \<open>Modelled from the spec: the membership test \<^verbatim>\<open>key in cache\<close>.\<close>

definition fc_contains :: "rat \<Rightarrow> fanout \<Rightarrow> elt \<Rightarrow> (error + bool) \<times> fanout" where
  "fc_contains now c k =
     (case enter c of
        (Some m, c') \<Rightarrow> (Inl (EngineFailure m), c')
      | (None, c') \<Rightarrow> (Inr (lookup now (rows c') k \<noteq> None), c'))"

text \<open>
  Modelled from the spec: \<^verbatim>\<open>cache[key]\<close>, which raises \<^verbatim>\<open>KeyError\<close> for an absent
  key.
\<close>

definition fc_getitem :: "rat \<Rightarrow> fanout \<Rightarrow> elt \<Rightarrow> (error + pyval) \<times> fanout" where
  "fc_getitem now c k =
     (case enter c of
        (Some m, c') \<Rightarrow> (Inl (EngineFailure m), c')
      | (None, c') \<Rightarrow>
          (case lookup now (rows c') k of
             None \<Rightarrow> (Inl (KeyError k), c')
           | Some e \<Rightarrow> (Inr (fst e), c')))"

text \<open>
  Modelled from the spec: \<^verbatim>\<open>del cache[key]\<close>, which raises \<^verbatim>\<open>KeyError\<close> for an
  absent key.
\<close>

definition fc_delitem :: "rat \<Rightarrow> fanout \<Rightarrow> elt \<Rightarrow> (error + unit) \<times> fanout" where
  "fc_delitem now c k =
     (case enter c of
        (Some m, c') \<Rightarrow> (Inl (EngineFailure m), c')
      | (None, c') \<Rightarrow>
          (case lookup now (rows c') k of
             None \<Rightarrow> (Inl (KeyError k), c')
           | Some e \<Rightarrow> (Inr (), c'\<lparr>rows := filter (\<lambda>r. fst r \<noteq> k) (rows c')\<rparr>)))"

text \<open>Modelled from the spec: \<^verbatim>\<open>list(cache)\<close>, every key in iteration order.\<close>

definition fc_keys :: "fanout \<Rightarrow> (error + elt list) \<times> fanout" where
  "fc_keys c =
     (case enter c of
        (Some m, c') \<Rightarrow> (Inl (EngineFailure m), c')
      | (None, c') \<Rightarrow> (Inr (map fst (rows c')), c'))"

text \<open>Modelled from the spec: \<^verbatim>\<open>cache.clear()\<close> removes every row and returns their number.\<close>

definition fc_clear :: "fanout \<Rightarrow> (error + nat) \<times> fanout" where
  "fc_clear c =
     (case enter c of
        (Some m, c') \<Rightarrow> (Inl (EngineFailure m), c')
      | (None, c') \<Rightarrow> (Inr (length (rows c')), c'\<lparr>rows := []\<rparr>))"

text \<open>
  Modelled from the spec: \<^verbatim>\<open>cache.evict(tag)\<close> removes the rows carrying the tag and
  returns their number.
\<close>

definition fc_evict :: "fanout \<Rightarrow> pyval \<Rightarrow> (error + nat) \<times> fanout" where
  "fc_evict c tg =
     (case enter c of
        (Some m, c') \<Rightarrow> (Inl (EngineFailure m), c')
      | (None, c') \<Rightarrow>
          (Inr (length (filter (\<lambda>r. tg \<noteq> PyNone \<and> snd (snd (snd r)) = tg) (rows c'))),
           c'\<lparr>rows := filter (\<lambda>r. \<not> (tg \<noteq> PyNone \<and> snd (snd (snd r)) = tg)) (rows c')\<rparr>))"

text \<open>
  Modelled from the spec: \<^verbatim>\<open>cache.expire()\<close> purges the rows whose expiration time has
  passed and returns their number.
\<close>

definition fc_expire :: "rat \<Rightarrow> fanout \<Rightarrow> (error + nat) \<times> fanout" where
  "fc_expire now c =
     (case enter c of
        (Some m, c') \<Rightarrow> (Inl (EngineFailure m), c')
      | (None, c') \<Rightarrow>
          (Inr (length (filter (\<lambda>r. \<not> live now (snd r)) (rows c'))),
           c'\<lparr>rows := filter (\<lambda>r. live now (snd r)) (rows c')\<rparr>))"

text \<open>
  Modelled from the spec: \<^verbatim>\<open>cache.check(fix=)\<close> and \<^verbatim>\<open>cache.volume()\<close> report what the
  engine holds for them.
\<close>

definition fc_check :: "fanout \<Rightarrow> bool \<Rightarrow> (error + string list) \<times> fanout" where
  "fc_check c fix =
     (case enter c of
        (Some m, c') \<Rightarrow> (Inl (EngineFailure m), c')
      | (None, c') \<Rightarrow> (Inr (warnings c'), c'))"

definition fc_volume :: "fanout \<Rightarrow> (error + nat) \<times> fanout" where
  "fc_volume c =
     (case enter c of
        (Some m, c') \<Rightarrow> (Inl (EngineFailure m), c')
      | (None, c') \<Rightarrow> (Inr (disk_bytes c'), c'))"

text \<open>
  Modelled from the spec: \<^verbatim>\<open>cache.close()\<close> releases the connection; it does not fail.
\<close>

definition fc_close :: "fanout \<Rightarrow> (error + unit) \<times> fanout" where
  "fc_close c = (Inr (), c\<lparr>opened := False\<rparr>)"

text \<open>
  Modelled from the spec: Python's truth value of the handle reference: \<^verbatim>\<open>None\<close> is false, and a handle,
  which has a length, is false when it holds no rows.
\<close>

fun truthy :: "fanout option \<Rightarrow> bool" where
  "truthy None = False"
| "truthy (Some c) = (rows c \<noteq> [])"

section \<open>The store\<close>

text \<open>
  Every operation takes the object and returns the outcome (\<open>Inl\<close> an exception,
  \<open>Inr\<close> the returned value) together with the object as the call leaves it: what was
  mutated before an exception was raised stays mutated.

  \<open>with_cache\<close> is a call \<^verbatim>\<open>self.cache.op(...)\<close>; \<open>err\<close> is what Python raises when
  \<^verbatim>\<open>self.cache\<close> is still \<^verbatim>\<open>None\<close>.
\<close>

definition with_cache ::
  "error \<Rightarrow> datastore \<Rightarrow> (fanout \<Rightarrow> (error + 'a) \<times> fanout) \<Rightarrow> (error + 'a) \<times> datastore" where
  "with_cache err ds f =
     (case cache ds of
        None \<Rightarrow> (Inl err, ds)
      | Some c \<Rightarrow> (case f c of (r, c') \<Rightarrow> (r, ds\<lparr>cache := Some c'\<rparr>)))"

definition close :: "datastore \<Rightarrow> (error + unit) \<times> datastore" where
  "close ds = with_cache AttributeError ds fc_close"

text \<open>\<^verbatim>\<open>if close: self.close()\<close> followed by \<^verbatim>\<open>return v\<close>.\<close>

definition finish :: "bool \<Rightarrow> 'a \<Rightarrow> datastore \<Rightarrow> (error + 'a) \<times> datastore" where
  "finish closing v ds =
     (if closing
      then (case close ds of (Inl x, d) \<Rightarrow> (Inl x, d) | (Inr u, d) \<Rightarrow> (Inr v, d))
      else (Inr v, ds))"

text \<open>Python's \<^verbatim>\<open>a or b\<close> on an optional number: \<^verbatim>\<open>None\<close> and zero are false.\<close>

definition py_or :: "rat option \<Rightarrow> rat option \<Rightarrow> rat option" where
  "py_or a b = (case a of None \<Rightarrow> b | Some x \<Rightarrow> if x = 0 then b else Some x)"

text \<open>The same on a number that is never \<^verbatim>\<open>None\<close>: \<^verbatim>\<open>shards or self.shards\<close>.\<close>

definition num_or :: "'a::zero \<Rightarrow> 'a \<Rightarrow> 'a" where
  "num_or a b = (if a = 0 then b else a)"

text \<open>
  \<^verbatim>\<open>init_cache(shards=0, timeout=0, cache=None)\<close>. \<open>at_path\<close> is what the engine
  finds at \<^verbatim>\<open>self.cache_path\<close> when a new handle is constructed.
\<close>

fun copy_loop ::
  "rat \<Rightarrow> elt list \<Rightarrow> fanout \<Rightarrow> fanout \<Rightarrow> (error + unit) \<times> fanout \<times> fanout" where
  "copy_loop now [] src dst = (Inr (), src, dst)"
| "copy_loop now (key # keys) src dst =
     (case fc_get now src key PyNone of
        (Inl x, src') \<Rightarrow> (Inl x, src', dst)
      | (Inr (val, expire_time, tg), src') \<Rightarrow>
          (case fc_set now dst key val expire_time tg of
             (Inl x, dst') \<Rightarrow> (Inl x, src', dst')
           | (Inr b, dst') \<Rightarrow> copy_loop now keys src' dst'))"

definition copy_cache :: "rat \<Rightarrow> fanout \<Rightarrow> fanout \<Rightarrow> (error + unit) \<times> fanout \<times> fanout" where
  "copy_cache now src_cache dst_cache =
     (case fc_clear dst_cache of
        (Inl x, dst) \<Rightarrow> (Inl x, src_cache, dst)
      | (Inr n, dst) \<Rightarrow>
          (case fc_keys src_cache of
             (Inl x, src) \<Rightarrow> (Inl x, src, dst)
           | (Inr keys, src) \<Rightarrow> copy_loop now keys src dst))"

definition init_cache ::
  "datastore \<Rightarrow> rat \<Rightarrow> nat \<Rightarrow> rat \<Rightarrow> fanout option \<Rightarrow> fanout \<Rightarrow> (error + unit) \<times> datastore" where
  "init_cache ds now shards_arg timeout_arg cache_arg at_path =
     (let shards' = num_or shards_arg (shards ds);
          timeout' = num_or timeout_arg (timeout ds)
      in if truthy cache_arg \<and> directory (the cache_arg) \<noteq> cache_path ds
         then (Inl PathMismatch, ds)
         else
           (case (if truthy cache_arg then Inr (the cache_arg)
                  else FanoutCache (cache_path ds) shards' timeout' (tag_index ds) at_path) of
              Inl x \<Rightarrow> (Inl x, ds)
            | Inr new_cache \<Rightarrow>
                (if truthy (cache ds) \<and> shards' \<noteq> shards ds
                 then (case copy_cache now (the (cache ds)) new_cache of
                         (Inl x, src, dst) \<Rightarrow> (Inl x, ds\<lparr>cache := Some src\<rparr>)
                       | (Inr u, src, dst) \<Rightarrow> close (ds\<lparr>cache := Some dst\<rparr>))
                 else close (ds\<lparr>cache := Some new_cache\<rparr>))))"

text \<open>
  \<^verbatim>\<open>__init__\<close>: the attributes, then \<^verbatim>\<open>self.init_cache()\<close>. \<open>nm\<close> and \<open>dl\<close> are
  the class attributes \<^verbatim>\<open>name\<close> and \<^verbatim>\<open>delim\<close> of the (sub)class.
\<close>

definition DataStore ::
  "string \<Rightarrow> string \<Rightarrow> string \<Rightarrow> nat \<Rightarrow> rat \<Rightarrow> rat option \<Rightarrow> bool \<Rightarrow> rat \<Rightarrow> fanout
     \<Rightarrow> (error + unit) \<times> datastore" where
  "DataStore nm dl path n t ex ti now at_path =
     init_cache \<lparr>name = nm, delim = dl, cache_path = path, shards = n, timeout = t,
                 expire = ex, tag_index = ti, cache = None\<rparr> now 0 0 None at_path"

subsection \<open>Closing wrappers\<close>

definition evict :: "datastore \<Rightarrow> pyval \<Rightarrow> (error + nat) \<times> datastore" where
  "evict ds tg =
     (case with_cache AttributeError ds (\<lambda>c. fc_evict c tg) of
        (Inl x, d) \<Rightarrow> (Inl x, d)
      | (Inr rm_count, d) \<Rightarrow> finish True rm_count d)"

text \<open>
  The body of the method \<^verbatim>\<open>expire\<close>, as run by \<^verbatim>\<open>DataStore.expire(store)\<close>. The
  attribute of the same name, set by \<^verbatim>\<open>__init__\<close>, is the field \<open>expire\<close> of the
  record; on an instance it hides the method.
\<close>

definition expire_method :: "datastore \<Rightarrow> rat \<Rightarrow> (error + nat) \<times> datastore" where
  "expire_method ds now =
     (case with_cache AttributeError ds (fc_expire now) of
        (Inl x, d) \<Rightarrow> (Inl x, d)
      | (Inr rm_count, d) \<Rightarrow> finish True rm_count d)"

definition check :: "datastore \<Rightarrow> bool \<Rightarrow> (error + string list) \<times> datastore" where
  "check ds fix =
     (case with_cache AttributeError ds (\<lambda>c. fc_check c fix) of
        (Inl x, d) \<Rightarrow> (Inl x, d)
      | (Inr ws, d) \<Rightarrow> finish True ws d)"

definition volume :: "datastore \<Rightarrow> (error + nat) \<times> datastore" where
  "volume ds =
     (case with_cache AttributeError ds fc_volume of
        (Inl x, d) \<Rightarrow> (Inl x, d)
      | (Inr v, d) \<Rightarrow> finish True v d)"

subsection \<open>Getters\<close>

text \<open>
  The flags \<^verbatim>\<open>read\<close> and \<^verbatim>\<open>retry\<close> of \<^verbatim>\<open>get\<close>, \<^verbatim>\<open>set\<close> and \<^verbatim>\<open>add\<close> are
  handed to the engine unchanged and concern its file handles and its retries; they are
  left out. \<open>closing\<close> is the parameter \<^verbatim>\<open>close\<close>.
\<close>

definition get ::
  "datastore \<Rightarrow> rat \<Rightarrow> key_arg \<Rightarrow> pyval \<Rightarrow> bool \<Rightarrow> bool \<Rightarrow> bool \<Rightarrow> (error + pyval) \<times> datastore" where
  "get ds now key dflt want_expire_time want_tag closing =
     (case key_of ds key of
        Inl x \<Rightarrow> (Inl x, ds)
      | Inr k \<Rightarrow>
          (case with_cache AttributeError ds (\<lambda>c. fc_get now c k dflt) of
             (Inl x, d) \<Rightarrow> (Inl x, d)
           | (Inr e, d) \<Rightarrow> finish closing (shape want_expire_time want_tag e) d))"

text \<open>The loop of \<^verbatim>\<open>items\<close>: \<^verbatim>\<open>items.append((key, self.get(key, close=False)))\<close>.\<close>

fun items_loop ::
  "datastore \<Rightarrow> rat \<Rightarrow> elt list \<Rightarrow> item list \<Rightarrow> (error + item list) \<times> datastore" where
  "items_loop ds now [] acc = (Inr acc, ds)"
| "items_loop ds now (key # keys) acc =
     (case get ds now (Lit key) PyNone False False False of
        (Inl x, d) \<Rightarrow> (Inl x, d)
      | (Inr v, d) \<Rightarrow> items_loop d now keys (acc @ [KV key v]))"

text \<open>\<^verbatim>\<open>dict(pairs)\<close>: a later pair overrides an earlier one with the same key.\<close>

fun dict :: "item list \<Rightarrow> (elt \<rightharpoonup> pyval)" where
  "dict [] = Map.empty"
| "dict (KV k v # its) = (\<lambda>x. case dict its x of Some w \<Rightarrow> Some w | None \<Rightarrow> if x = k then Some v else None)"
| "dict (K k # its) = dict its"

definition items :: "datastore \<Rightarrow> rat \<Rightarrow> bool \<Rightarrow> (error + listing) \<times> datastore" where
  "items ds now as_dict =
     (case with_cache TypeError ds fc_keys of
        (Inl x, d) \<Rightarrow> (Inl x, d)
      | (Inr keys, d) \<Rightarrow>
          (case items_loop d now keys [] of
             (Inl x, d') \<Rightarrow> (Inl x, d')
           | (Inr its, d') \<Rightarrow>
               (case close d' of
                  (Inl x, d'') \<Rightarrow> (Inl x, d'')
                | (Inr u, d'') \<Rightarrow> (Inr (if as_dict then Dict (dict its) else Listed its), d''))))"

text \<open>\<^verbatim>\<open>key[len(match_key):]\<close>.\<close>

fun strip :: "nat \<Rightarrow> elt \<Rightarrow> elt" where
  "strip n (Str s) = Str (drop n s)"
| "strip n (Num x) = Num x"

text \<open>
  The loop of \<^verbatim>\<open>get_startswith\<close> over \<^verbatim>\<open>list(self.cache)\<close>. A key that is not a
  string has no \<^verbatim>\<open>startswith\<close>; \<^verbatim>\<open>self.cache[key]\<close> raises for an absent key.
\<close>

fun scan ::
  "rat \<Rightarrow> string \<Rightarrow> bool \<Rightarrow> bool \<Rightarrow> elt list \<Rightarrow> item list \<Rightarrow> fanout
     \<Rightarrow> (error + item list) \<times> fanout" where
  "scan now match_key keys_only suffix_keys [] matches c = (Inr matches, c)"
| "scan now match_key keys_only suffix_keys (key # keys) matches c =
     (case startswith key match_key of
        Inl x \<Rightarrow> (Inl x, c)
      | Inr False \<Rightarrow> scan now match_key keys_only suffix_keys keys matches c
      | Inr True \<Rightarrow>
          (let matched_key = (if \<not> suffix_keys then key else strip (length match_key) key)
           in if keys_only
              then scan now match_key keys_only suffix_keys keys (matches @ [K matched_key]) c
              else (case fc_getitem now c key of
                      (Inl x, c') \<Rightarrow> (Inl x, c')
                    | (Inr v, c') \<Rightarrow>
                        scan now match_key keys_only suffix_keys keys
                          (matches @ [KV matched_key v]) c')))"

definition get_startswith ::
  "datastore \<Rightarrow> rat \<Rightarrow> match_arg \<Rightarrow> bool \<Rightarrow> bool \<Rightarrow> bool \<Rightarrow> bool
     \<Rightarrow> (error + listing) \<times> datastore" where
  "get_startswith ds now match_elts match_part as_dict keys_only suffix_keys =
     (case match_elts of
        Other \<Rightarrow> (Inr (Listed []), ds)
      | Key ka \<Rightarrow>
          (case makey_str ds (case ka of Seq es \<Rightarrow> es | Lit e \<Rightarrow> [e]) of
             Inl x \<Rightarrow> (Inl x, ds)
           | Inr mk \<Rightarrow>
               (let match_key = (if \<not> match_part then mk @ delim ds else mk)
                in case with_cache TypeError ds
                          (\<lambda>c. case fc_keys c of
                                  (Inl x, c') \<Rightarrow> (Inl x, c')
                                | (Inr keys, c') \<Rightarrow>
                                    scan now match_key keys_only suffix_keys keys [] c') of
                     (Inl x, d) \<Rightarrow> (Inl x, d)
                   | (Inr matches, d) \<Rightarrow>
                       (case close d of
                          (Inl x, d') \<Rightarrow> (Inl x, d')
                        | (Inr u, d') \<Rightarrow>
                            (Inr (if as_dict \<and> \<not> keys_only then Dict (dict matches)
                                  else Listed matches), d')))))"

subsection \<open>Setters\<close>

definition set_ds ::
  "datastore \<Rightarrow> rat \<Rightarrow> key_arg \<Rightarrow> pyval \<Rightarrow> rat option \<Rightarrow> pyval \<Rightarrow> bool
     \<Rightarrow> (error + unit) \<times> datastore" where
  "set_ds ds now key val ttl tg closing =
     (case key_of ds key of
        Inl x \<Rightarrow> (Inl x, ds)
      | Inr k \<Rightarrow>
          (case with_cache AttributeError ds
                  (\<lambda>c. fc_set now c k val (py_or ttl (expire ds)) tg) of
             (Inl x, d) \<Rightarrow> (Inl x, d)
           | (Inr b, d) \<Rightarrow> finish closing () d))"

definition add ::
  "datastore \<Rightarrow> rat \<Rightarrow> key_arg \<Rightarrow> pyval \<Rightarrow> rat option \<Rightarrow> pyval \<Rightarrow> bool
     \<Rightarrow> (error + unit) \<times> datastore" where
  "add ds now key val ttl tg closing =
     (case key_of ds key of
        Inl x \<Rightarrow> (Inl x, ds)
      | Inr k \<Rightarrow>
          (case with_cache AttributeError ds
                  (\<lambda>c. fc_add now c k val (py_or ttl (expire ds)) tg) of
             (Inl x, d) \<Rightarrow> (Inl x, d)
           | (Inr b, d) \<Rightarrow> finish closing () d))"

subsection \<open>Deleters\<close>

definition delete :: "datastore \<Rightarrow> rat \<Rightarrow> key_arg \<Rightarrow> bool \<Rightarrow> (error + unit) \<times> datastore" where
  "delete ds now key closing =
     (case key_of ds key of
        Inl x \<Rightarrow> (Inl x, ds)
      | Inr k \<Rightarrow>
          (case with_cache TypeError ds (\<lambda>c. fc_contains now c k) of
             (Inl x, d) \<Rightarrow> (Inl x, d)
           | (Inr False, d) \<Rightarrow> (Inl (KeyError k), d)
           | (Inr True, d) \<Rightarrow>
               (case with_cache TypeError d (\<lambda>c. fc_delitem now c k) of
                  (Inl x, d') \<Rightarrow> (Inl x, d')
                | (Inr u, d') \<Rightarrow> finish closing () d')))"

definition clear :: "datastore \<Rightarrow> bool \<Rightarrow> (error + unit) \<times> datastore" where
  "clear ds closing =
     (case with_cache AttributeError ds fc_clear of
        (Inl x, d) \<Rightarrow> (Inl x, d)
      | (Inr n, d) \<Rightarrow> finish closing () d)"

definition clear_all :: "datastore \<Rightarrow> (error + unit) \<times> datastore" where
  "clear_all ds = clear ds True"

text \<open>
  The loop of \<^verbatim>\<open>clear_keys\<close>: \<^verbatim>\<open>del self.cache[key]\<close> for every key found. The
  listing comes from \<^verbatim>\<open>get_startswith\<close> with \<^verbatim>\<open>keys_only=True\<close> and holds keys only.
\<close>

fun del_loop :: "datastore \<Rightarrow> rat \<Rightarrow> item list \<Rightarrow> (error + unit) \<times> datastore" where
  "del_loop ds now [] = (Inr (), ds)"
| "del_loop ds now (K key # its) =
     (case with_cache TypeError ds (\<lambda>c. fc_delitem now c key) of
        (Inl x, d) \<Rightarrow> (Inl x, d)
      | (Inr u, d) \<Rightarrow> del_loop d now its)"
| "del_loop ds now (KV key v # its) =
     (case with_cache TypeError ds (\<lambda>c. fc_delitem now c key) of
        (Inl x, d) \<Rightarrow> (Inl x, d)
      | (Inr u, d) \<Rightarrow> del_loop d now its)"

definition clear_keys :: "datastore \<Rightarrow> rat \<Rightarrow> match_arg \<Rightarrow> bool \<Rightarrow> (error + unit) \<times> datastore" where
  "clear_keys ds now startswith_arg closing =
     (case get_startswith ds now startswith_arg False False True False of
        (Inl x, d) \<Rightarrow> (Inl x, d)
      | (Inr (Listed its), d) \<Rightarrow>
          (case del_loop d now its of
             (Inl x, d') \<Rightarrow> (Inl x, d')
           | (Inr u, d') \<Rightarrow> finish closing () d')
      | (Inr (Dict m), d) \<Rightarrow> finish closing () d)"

section \<open>Observations on a store\<close>

text \<open>The live handle is closed (an object without a handle has nothing open).\<close>

definition released :: "datastore \<Rightarrow> bool" where
  "released ds = (case cache ds of None \<Rightarrow> True | Some c \<Rightarrow> \<not> opened c)"

text \<open>
  The outcome of a call closes on return: if the call returned a value (raised nothing),
  the handle is closed afterwards.
\<close>

definition closes_on_return :: "(error + 'a) \<times> datastore \<Rightarrow> bool" where
  "closes_on_return out = ((\<exists>r. fst out = Inr r) \<longrightarrow> released (snd out))"

text \<open>The rows of the live handle, in iteration order.\<close>

definition contents :: "datastore \<Rightarrow> row list" where
  "contents ds = (case cache ds of None \<Rightarrow> [] | Some c \<Rightarrow> rows c)"

text \<open>The row stored under a key in the live handle, expired or not.\<close>

definition stored :: "datastore \<Rightarrow> elt \<Rightarrow> entry option" where
  "stored ds k = (case cache ds of None \<Rightarrow> None | Some c \<Rightarrow> map_of (rows c) k)"

text \<open>The key is absent at time \<open>now\<close>: no row, or a row that has expired.\<close>

definition absent :: "rat \<Rightarrow> datastore \<Rightarrow> elt \<Rightarrow> bool" where
  "absent now ds k =
     (case cache ds of None \<Rightarrow> True | Some c \<Rightarrow> lookup now (rows c) k = None)"

text \<open>A row with its expiration time moved \<open>now\<close> seconds later.\<close>

definition shifted :: "rat \<Rightarrow> row \<Rightarrow> row" where
  "shifted now r = (case r of (k, v, t, g) \<Rightarrow> (k, v, map_option (\<lambda>e. now + e) t, g))"

section \<open>Example stores\<close>

text \<open>An empty directory as the engine finds it.\<close>

definition blank :: fanout where
  "blank = \<lparr>directory = ''cache/data'', count = 8, fc_timeout = 1/100,
             fc_tag_index = False, rows = [], opened = False, faults = [],
             warnings = [], disk_bytes = 0\<rparr>"

text \<open>The base class (\<^verbatim>\<open>name = ""\<close>) and a subclass named \<^verbatim>\<open>cfg\<close>, before \<^verbatim>\<open>init_cache\<close>.\<close>

definition base_store :: datastore where
  "base_store = \<lparr>name = [], delim = '':'', cache_path = ''cache/data'', shards = 8,
                  timeout = 1/100, expire = None, tag_index = False, cache = None\<rparr>"

definition cfg_store :: datastore where
  "cfg_store = base_store\<lparr>name := ''cfg''\<rparr>"

text \<open>
  A store of 8 shards holding one entry that expires at time 2000 and carries a tag.
\<close>

definition one_entry_store :: datastore where
  "one_entry_store =
     base_store\<lparr>cache :=
       Some (blank\<lparr>rows := [(Str ''k'', (PyStr ''v'', Some 2000, PyStr ''t''))]\<rparr>)\<rparr>"

text \<open>A store with a default expiration of 60 seconds and an empty, closed handle.\<close>

definition ttl_store :: datastore where
  "ttl_store = base_store\<lparr>expire := Some 60, cache := Some blank\<rparr>"

text \<open>
  The store of the exact-boundary scenario: namespace \<^verbatim>\<open>cfg\<close>, two entries that never
  expire.
\<close>

definition jobs_store :: datastore where
  "jobs_store =
     cfg_store\<lparr>cache :=
       Some (blank\<lparr>rows := [(Str ''cfg:Job.Foo:a'', (PyNum 1, None, PyNone)),
                              (Str ''cfg:Job.FooBar:b'', (PyNum 2, None, PyNone))]\<rparr>)\<rparr>"

text \<open>The one-entry store with an engine whose next call raises a timeout.\<close>

definition faulty_store :: datastore where
  "faulty_store =
     base_store\<lparr>cache :=
       Some (blank\<lparr>rows := [(Str ''k'', (PyStr ''v'', Some 2000, PyStr ''t''))],
                    faults := [Some ''timeout'']\<rparr>)\<rparr>"

section \<open>Key encoding: properties\<close>

lemma join_prefix: "join d (Str s # es) = Inr k \<Longrightarrow> prefix s k"
  by (cases es) (auto split: sum.splits)

text \<open>
  Claim C4, as the code has it. \<^verbatim>\<open>makey\<close> called with no element raises only when the
  namespace name is non-empty, and what it raises is the \<^verbatim>\<open>IndexError\<close> of
  \<^verbatim>\<open>args[0]\<close>. With the empty name of the base class the test short-circuits and the
  call returns the empty key (the empty list with \<^verbatim>\<open>as_tuple\<close>).
\<close>

theorem makey_no_elements:
  "(name ds = [] \<longrightarrow> makey ds [] as_tuple = Inr (if as_tuple then Elts [] else Joined []))
   \<and> (name ds \<noteq> [] \<longrightarrow> makey ds [] as_tuple = Inl IndexError)"
  by (simp add: makey_def makey_elts_def)

theorem makey_no_elements_witness:
  "name base_store = [] \<and> makey base_store [] False = Inr (Joined [])
   \<and> name cfg_store \<noteq> [] \<and> makey cfg_store [] False = Inl IndexError"
proof -
  have b: "name base_store = []" by (simp add: base_store_def)
  have c: "name cfg_store \<noteq> []" by (simp add: cfg_store_def base_store_def)
  from makey_no_elements [of base_store False] b
  have 1: "makey base_store [] False = Inr (Joined [])" by simp
  from makey_no_elements [of cfg_store False] c
  have 2: "makey cfg_store [] False = Inl IndexError" by simp
  from b c 1 2 show ?thesis by simp
qed

text \<open>
  Claim C4 as stated fails: on the base class, \<^verbatim>\<open>makey()\<close> raises nothing and returns
  the empty string.
\<close>

theorem makey_no_elements_base_returns:
  "makey base_store [] False = Inr (Joined [])"
  by (simp add: makey_def makey_elts_def base_store_def)

text \<open>
  Claim C5 does not hold of the code. A number as the only element makes \<^verbatim>\<open>makey\<close>
  raise: \<^verbatim>\<open>TypeError\<close> from \<^verbatim>\<open>join\<close> on the base class, \<^verbatim>\<open>AttributeError\<close> from
  \<^verbatim>\<open>args[0].startswith\<close> under a non-empty name; a number after a string element
  raises \<^verbatim>\<open>TypeError\<close> as well.
\<close>

theorem makey_number_raises:
  "makey base_store [Num 5] False = Inl TypeError
   \<and> makey cfg_store [Num 5] False = Inl AttributeError
   \<and> makey cfg_store [Str ''a'', Num 5] False = Inl TypeError"
  by (simp add: makey_def makey_elts_def base_store_def cfg_store_def)

text \<open>
  Claim C8 (idempotent prefixing). Under a non-empty name, when the first element
  already starts with \<open>name + delim\<close> the result of \<^verbatim>\<open>makey\<close> is the join of the
  elements alone; and encoding a key that \<^verbatim>\<open>makey\<close> produced gives the same key again.
\<close>

theorem makey_idempotent_prefix:
  "name ds \<noteq> [] \<Longrightarrow>
   (prefix (name ds @ delim ds) s \<longrightarrow>
      makey ds (Str s # es) False = map_sum id Joined (join (delim ds) (Str s # es)))
   \<and> (makey ds args False = Inr (Joined k) \<longrightarrow> makey ds [Str k] False = Inr (Joined k))"
proof (intro conjI impI)
  assume "prefix (name ds @ delim ds) s" and "name ds \<noteq> []"
  then show "makey ds (Str s # es) False = map_sum id Joined (join (delim ds) (Str s # es))"
    by (simp add: makey_def makey_elts_def split: sum.splits)
next
  assume n: "name ds \<noteq> []" and m: "makey ds args False = Inr (Joined k)"
  have "prefix (name ds @ delim ds) k"
  proof (cases args)
    case Nil
    with n m show ?thesis by (simp add: makey_def makey_elts_def)
  next
    case (Cons a as)
    show ?thesis
    proof (cases a)
      case (Num x)
      with n m Cons show ?thesis by (simp add: makey_def makey_elts_def)
    next
      case (Str t)
      show ?thesis
      proof (cases "prefix (name ds @ delim ds) t")
        case True
        with n m Cons Str have "join (delim ds) (Str t # as) = Inr k"
          by (simp add: makey_def makey_elts_def split: sum.splits)
        then have "prefix t k" by (rule join_prefix)
        with True show ?thesis by (meson prefix_order.trans)
      next
        case False
        with n m Cons Str show ?thesis
          by (auto simp add: makey_def makey_elts_def split: sum.splits)
      qed
    qed
  qed
  with n show "makey ds [Str k] False = Inr (Joined k)"
    by (simp add: makey_def makey_elts_def)
qed

theorem makey_idempotent_prefix_witness:
  "name cfg_store \<noteq> [] \<and> prefix (name cfg_store @ delim cfg_store) ''cfg:a''
   \<and> makey cfg_store [Str ''cfg:a'', Str ''b''] False = Inr (Joined ''cfg:a:b'')
   \<and> makey cfg_store [Str ''a'', Str ''b''] False = Inr (Joined ''cfg:a:b'')
   \<and> makey cfg_store [Str ''cfg:a:b''] False = Inr (Joined ''cfg:a:b'')"
proof -
  have n: "name cfg_store \<noteq> []" by (simp add: cfg_store_def base_store_def)
  have p: "prefix (name cfg_store @ delim cfg_store) ''cfg:a''"
    by (simp add: cfg_store_def base_store_def)
  have d: "delim cfg_store = '':''" by (simp add: cfg_store_def base_store_def)
  have m: "makey cfg_store [Str ''a'', Str ''b''] False = Inr (Joined ''cfg:a:b'')"
    by (simp add: makey_def makey_elts_def cfg_store_def base_store_def)
  note inst = makey_idempotent_prefix [OF n, of "''cfg:a''" "[Str ''b'']"
      "[Str ''a'', Str ''b'']" "''cfg:a:b''"]
  from inst p d have 1: "makey cfg_store [Str ''cfg:a'', Str ''b''] False = Inr (Joined ''cfg:a:b'')"
    by simp
  from inst m have 2: "makey cfg_store [Str ''cfg:a:b''] False = Inr (Joined ''cfg:a:b'')"
    by simp
  from n p m 1 2 show ?thesis by simp
qed

section \<open>Resharding: properties\<close>

lemma enter_fields:
  "enter c = (f, c') \<Longrightarrow>
     count c' = count c \<and> rows c' = rows c \<and> directory c' = directory c \<and> opened c'"
  by (auto simp add: enter_def split: list.splits)

lemma enter_no_fault: "faults c = [] \<Longrightarrow> enter c = (None, c\<lparr>opened := True\<rparr>)"
  by (simp add: enter_def)

lemma fc_set_count: "fc_set now c k v ttl tg = (r, c') \<Longrightarrow> count c' = count c"
proof (cases "enter c")
  case (Pair f c1)
  assume a: "fc_set now c k v ttl tg = (r, c')"
  from Pair have "count c1 = count c" by (simp add: enter_fields)
  with Pair a show ?thesis by (cases f) (auto simp add: fc_set_def)
qed

lemma fc_clear_count: "fc_clear c = (r, c') \<Longrightarrow> count c' = count c"
proof (cases "enter c")
  case (Pair f c1)
  assume a: "fc_clear c = (r, c')"
  from Pair have "count c1 = count c" by (simp add: enter_fields)
  with Pair a show ?thesis by (cases f) (auto simp add: fc_clear_def)
qed

lemma copy_loop_count: "copy_loop now ks src dst = (r, src', dst') \<Longrightarrow> count dst' = count dst"
proof (induction ks arbitrary: src dst)
  case Nil
  then show ?case by simp
next
  case (Cons k ks)
  obtain g src1 where g: "fc_get now src k PyNone = (g, src1)"
    by (cases "fc_get now src k PyNone")
  show ?case
  proof (cases g)
    case (Inl x)
    with g Cons.prems show ?thesis by simp
  next
    case (Inr e)
    obtain v t tg where e: "e = (v, t, tg)" by (cases e) auto
    obtain w dst1 where w: "fc_set now dst k v t tg = (w, dst1)"
      by (cases "fc_set now dst k v t tg")
    then have c: "count dst1 = count dst" by (rule fc_set_count)
    show ?thesis
    proof (cases w)
      case (Inl x)
      with g Inr e w c Cons.prems show ?thesis by simp
    next
      case (Inr b)
      with g \<open>g = Inr e\<close> e w Cons.prems have "copy_loop now ks src1 dst1 = (r, src', dst')" by simp
      then have "count dst' = count dst1" by (rule Cons.IH)
      with c show ?thesis by simp
    qed
  qed
qed

lemma copy_cache_count: "copy_cache now src dst = (r, src', dst') \<Longrightarrow> count dst' = count dst"
proof -
  assume a: "copy_cache now src dst = (r, src', dst')"
  obtain n dst1 where n: "fc_clear dst = (n, dst1)" by (cases "fc_clear dst")
  then have c: "count dst1 = count dst" by (rule fc_clear_count)
  show ?thesis
  proof (cases n)
    case (Inl x)
    with a n c show ?thesis by (simp add: copy_cache_def)
  next
    case (Inr m)
    obtain ks src1 where ks: "fc_keys src = (ks, src1)" by (cases "fc_keys src")
    show ?thesis
    proof (cases ks)
      case (Inl x)
      with a n Inr ks c show ?thesis by (simp add: copy_cache_def)
    next
      case keys: (Inr l)
      with a n Inr ks have "copy_loop now l src1 dst1 = (r, src', dst')"
        by (simp add: copy_cache_def)
      then have "count dst' = count dst1" by (rule copy_loop_count)
      with c show ?thesis by simp
    qed
  qed
qed

lemma close_some:
  "cache d = Some h \<Longrightarrow> close d = (Inr (), d\<lparr>cache := Some (h\<lparr>opened := False\<rparr>)\<rparr>)"
  by (simp add: close_def with_cache_def fc_close_def)

lemma close_only_cache: "\<exists>h. snd (close d) = d\<lparr>cache := h\<rparr>"
proof (cases "cache d")
  case None
  then have "snd (close d) = d\<lparr>cache := None\<rparr>" by (simp add: close_def with_cache_def)
  then show ?thesis by blast
next
  case (Some c)
  then have "snd (close d) = d\<lparr>cache := Some (c\<lparr>opened := False\<rparr>)\<rparr>"
    by (simp add: close_some)
  then show ?thesis by blast
qed

lemma init_cache_cases:
  "(\<exists>e. init_cache ds now n t c at_path = (Inl e, ds))
   \<or> (\<exists>e src. init_cache ds now n t c at_path = (Inl e, ds\<lparr>cache := Some src\<rparr>))
   \<or> (\<exists>x. init_cache ds now n t c at_path = close (ds\<lparr>cache := Some x\<rparr>))"
proof (cases "truthy c \<and> directory (the c) \<noteq> cache_path ds")
  case True
  then have "init_cache ds now n t c at_path = (Inl PathMismatch, ds)"
    by (auto simp add: init_cache_def Let_def)
  then show ?thesis by blast
next
  case ok: False
  show ?thesis
  proof (cases "if truthy c then Inr (the c)
                else FanoutCache (cache_path ds) (num_or n (shards ds))
                       (num_or t (timeout ds)) (tag_index ds) at_path")
    case (Inl x)
    with ok have "init_cache ds now n t c at_path = (Inl x, ds)"
      by (auto simp add: init_cache_def Let_def)
    then show ?thesis by blast
  next
    case new: (Inr new_cache)
    show ?thesis
    proof (cases "truthy (cache ds) \<and> num_or n (shards ds) \<noteq> shards ds")
      case False
      with ok new have "init_cache ds now n t c at_path = close (ds\<lparr>cache := Some new_cache\<rparr>)"
        by (auto simp add: init_cache_def Let_def)
      then show ?thesis by blast
    next
      case True
      obtain r src dst where cc: "copy_cache now (the (cache ds)) new_cache = (r, src, dst)"
        by (cases "copy_cache now (the (cache ds)) new_cache") auto
      show ?thesis
      proof (cases r)
        case (Inl x)
        with ok new True cc have "init_cache ds now n t c at_path = (Inl x, ds\<lparr>cache := Some src\<rparr>)"
          by (auto simp add: init_cache_def Let_def)
        then show ?thesis by blast
      next
        case (Inr u)
        with ok new True cc have "init_cache ds now n t c at_path = close (ds\<lparr>cache := Some dst\<rparr>)"
          by (auto simp add: init_cache_def Let_def)
        then show ?thesis by blast
      qed
    qed
  qed
qed

lemma init_cache_only_cache: "\<exists>h. snd (init_cache ds now n t c at_path) = ds\<lparr>cache := h\<rparr>"
proof -
  have same: "ds = ds\<lparr>cache := cache ds\<rparr>" by simp
  have cl: "\<exists>h. snd (close (ds\<lparr>cache := x\<rparr>)) = ds\<lparr>cache := h\<rparr>" for x
    using close_only_cache [of "ds\<lparr>cache := x\<rparr>"] by simp
  from init_cache_cases [of ds now n t c at_path] show ?thesis
  proof (elim disjE exE)
    fix e assume "init_cache ds now n t c at_path = (Inl e, ds)"
    then have "snd (init_cache ds now n t c at_path) = ds" by simp
    with same show ?thesis by metis
  next
    fix e src assume "init_cache ds now n t c at_path = (Inl e, ds\<lparr>cache := Some src\<rparr>)"
    then have "snd (init_cache ds now n t c at_path) = ds\<lparr>cache := Some src\<rparr>" by simp
    then show ?thesis by blast
  next
    fix x assume "init_cache ds now n t c at_path = close (ds\<lparr>cache := Some x\<rparr>)"
    with cl [of "Some x"] show ?thesis by simp
  qed
qed

text \<open>A reshard that succeeds leaves a live handle with the requested shard count.\<close>

lemma init_cache_reshard_count:
  assumes n0: "n \<noteq> 0" and ic: "init_cache ds now n t None at_path = (Inr (), ds2)"
  shows "\<exists>h. cache ds2 = Some h \<and> count h = n"
proof -
  let ?new = "at_path\<lparr>directory := cache_path ds, count := n,
                        fc_timeout := num_or t (timeout ds),
                        fc_tag_index := tag_index ds, opened := True\<rparr>"
  have nn: "num_or n (shards ds) = n" using n0 by (simp add: num_or_def)
  have fc: "FanoutCache (cache_path ds) n (num_or t (timeout ds)) (tag_index ds) at_path = Inr ?new"
    using n0 by (simp add: FanoutCache_def)
  show ?thesis
  proof (cases "truthy (cache ds) \<and> n \<noteq> shards ds")
    case False
    with ic nn fc have "close (ds\<lparr>cache := Some ?new\<rparr>) = (Inr (), ds2)"
      by (auto simp add: init_cache_def Let_def)
    then show ?thesis by (auto simp add: close_some)
  next
    case True
    obtain r src dst where cc: "copy_cache now (the (cache ds)) ?new = (r, src, dst)"
      by (cases "copy_cache now (the (cache ds)) ?new") auto
    then have "count dst = count ?new" by (rule copy_cache_count)
    then have cd: "count dst = n" by simp
    from ic nn fc True cc have "close (ds\<lparr>cache := Some dst\<rparr>) = (Inr (), ds2)"
      by (cases r) (auto simp add: init_cache_def Let_def)
    with cd show ?thesis by (auto simp add: close_some)
  qed
qed

text \<open>The reshard of the one-entry store to 4 shards at time 1000, evaluated.\<close>

lemma init_cache_one_entry:
  "init_cache one_entry_store 1000 4 0 None blank =
     (Inr (),
      base_store\<lparr>cache :=
        Some (blank\<lparr>count := 4,
                     rows := [(Str ''k'', (PyStr ''v'', Some 3000, PyStr ''t''))]\<rparr>)\<rparr>)"
  by (simp add: init_cache_def one_entry_store_def base_store_def blank_def FanoutCache_def
      num_or_def copy_cache_def fc_clear_def fc_keys_def enter_def fc_get_def fc_set_def
      lookup_def live_def close_def with_cache_def fc_close_def)

text \<open>
  Claim C10. Whatever the arguments and whatever the outcome, \<^verbatim>\<open>init_cache\<close> leaves
  \<^verbatim>\<open>shards\<close>, \<^verbatim>\<open>timeout\<close>, \<^verbatim>\<open>cache_path\<close>, \<^verbatim>\<open>expire\<close> and \<^verbatim>\<open>tag_index\<close>
  (and the class attributes) as they were: only the handle reference changes. In
  particular, after a successful reshard to a shard count \<open>n\<close> that differs from the
  stored one, the live handle has \<open>n\<close> shards while \<^verbatim>\<open>self.shards\<close> still has the old
  value.
\<close>

theorem init_cache_frame:
  "(case init_cache ds now n t c at_path of (r, ds') \<Rightarrow>
      shards ds' = shards ds \<and> timeout ds' = timeout ds \<and> cache_path ds' = cache_path ds
      \<and> expire ds' = expire ds \<and> tag_index ds' = tag_index ds
      \<and> name ds' = name ds \<and> delim ds' = delim ds)
   \<and> (n \<noteq> 0 \<and> n \<noteq> shards ds \<and> init_cache ds now n t None at_path = (Inr (), ds2)
        \<longrightarrow> shards ds2 = shards ds
            \<and> (\<exists>h. cache ds2 = Some h \<and> count h = n \<and> count h \<noteq> shards ds2))"
proof (intro conjI impI)
  obtain h where "snd (init_cache ds now n t c at_path) = ds\<lparr>cache := h\<rparr>"
    using init_cache_only_cache by blast
  then show "case init_cache ds now n t c at_path of (r, ds') \<Rightarrow>
      shards ds' = shards ds \<and> timeout ds' = timeout ds \<and> cache_path ds' = cache_path ds
      \<and> expire ds' = expire ds \<and> tag_index ds' = tag_index ds
      \<and> name ds' = name ds \<and> delim ds' = delim ds"
    by (cases "init_cache ds now n t c at_path") simp
next
  assume a: "n \<noteq> 0 \<and> n \<noteq> shards ds \<and> init_cache ds now n t None at_path = (Inr (), ds2)"
  obtain h where "snd (init_cache ds now n t None at_path) = ds\<lparr>cache := h\<rparr>"
    using init_cache_only_cache by blast
  with a show "shards ds2 = shards ds" by simp
next
  assume a: "n \<noteq> 0 \<and> n \<noteq> shards ds \<and> init_cache ds now n t None at_path = (Inr (), ds2)"
  obtain h where "snd (init_cache ds now n t None at_path) = ds\<lparr>cache := h\<rparr>"
    using init_cache_only_cache by blast
  with a have s: "shards ds2 = shards ds" by simp
  from a init_cache_reshard_count [of n ds now t at_path ds2]
  obtain h where "cache ds2 = Some h" and "count h = n" by blast
  with a s show "\<exists>h. cache ds2 = Some h \<and> count h = n \<and> count h \<noteq> shards ds2" by simp
qed

theorem init_cache_frame_witness:
  "((4::nat) \<noteq> 0 \<and> 4 \<noteq> shards one_entry_store)
   \<and> fst (init_cache one_entry_store 1000 4 0 None blank) = Inr ()
   \<and> (shards (snd (init_cache one_entry_store 1000 4 0 None blank)) = shards one_entry_store
      \<and> (\<exists>h. cache (snd (init_cache one_entry_store 1000 4 0 None blank)) = Some h
            \<and> count h = 4
            \<and> count h \<noteq> shards (snd (init_cache one_entry_store 1000 4 0 None blank))))"
proof -
  let ?r = "init_cache one_entry_store 1000 4 0 None blank"
  have n: "(4::nat) \<noteq> 0 \<and> 4 \<noteq> shards one_entry_store"
    by (simp add: one_entry_store_def base_store_def)
  have f: "fst ?r = Inr ()" by (simp add: init_cache_one_entry)
  then have e: "?r = (Inr (), snd ?r)" by (metis prod.collapse)
  have "(4::nat) \<noteq> 0 \<and> 4 \<noteq> shards one_entry_store \<and> ?r = (Inr (), snd ?r)
        \<longrightarrow> shards (snd ?r) = shards one_entry_store
            \<and> (\<exists>h. cache (snd ?r) = Some h \<and> count h = 4 \<and> count h \<noteq> shards (snd ?r))"
    using init_cache_frame [where ds = one_entry_store and now = 1000 and n = 4 and t = 0
      and c = None and at_path = blank and ?ds2.0 = "snd ?r"] by (rule conjunct2)
  with n e have "shards (snd ?r) = shards one_entry_store
            \<and> (\<exists>h. cache (snd ?r) = Some h \<and> count h = 4 \<and> count h \<noteq> shards (snd ?r))"
    by blast
  with n f show ?thesis by blast
qed

lemma upsert_new: "k \<notin> fst ` set rs \<Longrightarrow> upsert k e rs = rs @ [(k, e)]"
  by (induction rs) auto

lemma fc_get_live:
  assumes "faults src = []" and "opened src" and "map_of (rows src) k = Some e" and "live now e"
  shows "fc_get now src k d = (Inr e, src)"
  using assms by (simp add: fc_get_def enter_no_fault lookup_def)

lemma fc_set_new:
  assumes "faults dst = []" and "opened dst" and "k \<notin> fst ` set (rows dst)"
  shows "fc_set now dst k v t g
           = (Inr True, dst\<lparr>rows := rows dst @ [(k, v, map_option (\<lambda>e. now + e) t, g)]\<rparr>)"
  using assms by (simp add: fc_set_def enter_no_fault upsert_new)

lemma copy_loop_appends:
  assumes "faults src = []" and "opened src" and "faults dst = []" and "opened dst"
    and "distinct (map fst rs)" and "set rs \<subseteq> set (rows src)"
    and "distinct (map fst (rows src))"
    and "\<forall>r \<in> set rs. live now (snd r)"
    and "fst ` set rs \<inter> fst ` set (rows dst) = {}"
  shows "copy_loop now (map fst rs) src dst
           = (Inr (), src, dst\<lparr>rows := rows dst @ map (shifted now) rs\<rparr>)"
  using assms
proof (induction rs arbitrary: dst)
  case Nil
  then show ?case by simp
next
  case (Cons r rs)
  obtain k v t g where r: "r = (k, v, t, g)" by (cases r) auto
  have m: "map_of (rows src) k = Some (v, t, g)"
    using Cons.prems(6,7) r by simp
  have l: "live now (v, t, g)" using Cons.prems(8) r by simp
  have g: "fc_get now src k PyNone = (Inr (v, t, g), src)"
    using fc_get_live [OF Cons.prems(1,2) m l] .
  have kn: "k \<notin> fst ` set (rows dst)" using Cons.prems(9) r by auto
  let ?dst = "dst\<lparr>rows := rows dst @ [(k, v, map_option (\<lambda>e. now + e) t, g)]\<rparr>"
  have s: "fc_set now dst k v t g = (Inr True, ?dst)"
    using fc_set_new [OF Cons.prems(3,4) kn] .
  have d: "fst ` set rs \<inter> fst ` set (rows ?dst) = {}"
    using Cons.prems(5,9) r by auto
  have "copy_loop now (map fst rs) src ?dst
          = (Inr (), src, ?dst\<lparr>rows := rows ?dst @ map (shifted now) rs\<rparr>)"
    using Cons.IH [of ?dst] Cons.prems d by simp
  with g s r show ?case by (simp add: shifted_def)
qed

text \<open>
  What \<^verbatim>\<open>copy_cache\<close> does to any population: when neither engine fails and no entry
  of the source has expired, the destination receives the rows of the source in the same
  order, with the same keys, values and tags, and every expiration time \<open>t\<close> replaced
  by \<open>now + t\<close>.
\<close>

lemma copy_cache_shifts:
  assumes "faults src = []" and "faults dst = []"
    and "distinct (map fst (rows src))" and "\<forall>r \<in> set (rows src). live now (snd r)"
  shows "copy_cache now src dst
           = (Inr (), src\<lparr>opened := True\<rparr>,
              dst\<lparr>opened := True, rows := map (shifted now) (rows src)\<rparr>)"
proof -
  let ?src = "src\<lparr>opened := True\<rparr>"
  let ?dst = "dst\<lparr>opened := True, rows := []\<rparr>"
  have c: "fc_clear dst = (Inr (length (rows dst)), ?dst)"
    using assms(2) by (simp add: fc_clear_def enter_no_fault)
  have k: "fc_keys src = (Inr (map fst (rows ?src)), ?src)"
    using assms(1) by (simp add: fc_keys_def enter_no_fault)
  have "copy_loop now (map fst (rows ?src)) ?src ?dst
          = (Inr (), ?src, ?dst\<lparr>rows := rows ?dst @ map (shifted now) (rows ?src)\<rparr>)"
    by (rule copy_loop_appends) (use assms in simp_all)
  with c k show ?thesis by (simp add: copy_cache_def)
qed

text \<open>
  Claim C1 does not hold of the code. \<^verbatim>\<open>copy_cache\<close> reads the absolute expiration
  time of each entry and passes it to \<^verbatim>\<open>set\<close> as \<^verbatim>\<open>expire\<close>, the number of seconds
  after the write. An entry that expires at time 2000, copied by a reshard that runs at
  time 1000, expires at time 3000 in the new handle; its value and tag are kept.
\<close>

theorem reshard_shifts_expire_time:
  "stored one_entry_store (Str ''k'') = Some (PyStr ''v'', Some 2000, PyStr ''t'')
   \<and> fst (init_cache one_entry_store 1000 4 0 None blank) = Inr ()
   \<and> stored (snd (init_cache one_entry_store 1000 4 0 None blank)) (Str ''k'')
       = Some (PyStr ''v'', Some 3000, PyStr ''t'')"
  by (simp add: init_cache_one_entry) (simp add: stored_def one_entry_store_def blank_def)

section \<open>Operations on a handle whose engine does not fail\<close>

lemma with_cache_some:
  "cache ds = Some c \<Longrightarrow> with_cache err ds f = (fst (f c), ds\<lparr>cache := Some (snd (f c))\<rparr>)"
  by (simp add: with_cache_def split: prod.splits)

lemma makey_elts_cache_update: "makey_elts (ds\<lparr>cache := x\<rparr>) args = makey_elts ds args"
  by (simp add: makey_elts_def split: list.splits sum.splits)

lemma makey_cache_update: "makey (ds\<lparr>cache := x\<rparr>) args t = makey ds args t"
  by (simp add: makey_def makey_elts_cache_update split: sum.splits)

lemma makey_str_cache_update: "makey_str (ds\<lparr>cache := x\<rparr>) args = makey_str ds args"
  by (simp add: makey_str_def makey_cache_update split: sum.splits made.splits)

lemma key_of_cache_update [simp]: "key_of (ds\<lparr>cache := x\<rparr>) key = key_of ds key"
  by (cases key) (simp_all add: key_of_def makey_str_cache_update)

lemma map_of_upsert: "map_of (upsert k e rs) x = (if x = k then Some e else map_of rs x)"
  by (induction rs) auto

lemma map_of_remove: "map_of (filter (\<lambda>r. fst r \<noteq> k) rs) x = (if x = k then None else map_of rs x)"
  by (induction rs) auto

lemma finish_some:
  "cache d = Some h \<Longrightarrow>
   finish closing v d = (Inr v, d\<lparr>cache := Some (h\<lparr>opened := opened h \<and> \<not> closing\<rparr>)\<rparr>)"
  by (cases closing) (simp_all add: finish_def close_some)

lemma get_no_fault:
  assumes "cache ds = Some c" and "faults c = []" and "key_of ds key = Inr k"
  shows "get ds now key dflt et tg closing =
           (Inr (shape et tg (case lookup now (rows c) k of
                                None \<Rightarrow> (dflt, None, PyNone) | Some e \<Rightarrow> e)),
            ds\<lparr>cache := Some (c\<lparr>opened := \<not> closing\<rparr>)\<rparr>)"
  using assms
  by (simp add: get_def with_cache_some fc_get_def enter_no_fault finish_some
      split: option.splits)

lemma set_no_fault:
  assumes "cache ds = Some c" and "faults c = []" and "key_of ds key = Inr k"
  shows "set_ds ds now key v ttl tg closing =
           (Inr (),
            ds\<lparr>cache := Some (c\<lparr>opened := \<not> closing,
                 rows := upsert k (v, map_option (\<lambda>e. now + e) (py_or ttl (expire ds)), tg)
                           (rows c)\<rparr>)\<rparr>)"
  using assms
  by (simp add: set_ds_def with_cache_some fc_set_def enter_no_fault finish_some)


lemma delete_no_fault:
  assumes "cache ds = Some c" and "faults c = []" and "key_of ds key = Inr k"
  shows "delete ds now key closing =
           (if lookup now (rows c) k = None
            then (Inl (KeyError k), ds\<lparr>cache := Some (c\<lparr>opened := True\<rparr>)\<rparr>)
            else (Inr (),
                  ds\<lparr>cache := Some (c\<lparr>opened := \<not> closing,
                       rows := filter (\<lambda>r. fst r \<noteq> k) (rows c)\<rparr>)\<rparr>))"
  using assms
  by (auto simp add: delete_def with_cache_some fc_contains_def fc_delitem_def enter_no_fault
      finish_some split: option.splits)


section \<open>Delete and get\<close>

text \<open>
  Claim C6. On a store whose engine completes its calls, for a key argument that encodes
  to the physical key \<open>k\<close>: \<^verbatim>\<open>delete\<close> raises if and only if \<open>k\<close> is absent, the
  error is \<^verbatim>\<open>KeyError(k)\<close> and the rows of the handle are as before; when \<open>k\<close> is
  present \<^verbatim>\<open>delete\<close> returns and the row is gone. \<^verbatim>\<open>get\<close> on an absent key returns
  the default and raises nothing.
\<close>

theorem delete_get_absent:
  assumes "cache ds = Some c" and "faults c = []" and "key_of ds key = Inr k"
  shows "((\<exists>e. fst (delete ds now key closing) = Inl e) \<longleftrightarrow> absent now ds k)
       \<and> (absent now ds k \<longrightarrow>
            fst (delete ds now key closing) = Inl (KeyError k)
            \<and> contents (snd (delete ds now key closing)) = contents ds)
       \<and> (\<not> absent now ds k \<longrightarrow>
            fst (delete ds now key closing) = Inr ()
            \<and> contents (snd (delete ds now key closing))
                = filter (\<lambda>r. fst r \<noteq> k) (contents ds)
            \<and> stored (snd (delete ds now key closing)) k = None
            \<and> absent now (snd (delete ds now key closing)) k)
       \<and> (absent now ds k \<longrightarrow> get ds now key x False False closing
                                   = (Inr x, ds\<lparr>cache := Some (c\<lparr>opened := \<not> closing\<rparr>)\<rparr>))"
proof (cases "lookup now (rows c) k = None")
  case True
  with assms show ?thesis
    by (simp add: delete_no_fault get_no_fault absent_def contents_def shape_def)
next
  case False
  with assms show ?thesis
    by (auto simp add: delete_no_fault absent_def contents_def stored_def map_of_remove
        lookup_def)
qed

lemma one_entry_cache:
  "cache one_entry_store
     = Some (blank\<lparr>rows := [(Str ''k'', (PyStr ''v'', Some 2000, PyStr ''t''))]\<rparr>)"
  by (simp add: one_entry_store_def)

theorem delete_get_absent_witness:
  "absent 1000 one_entry_store (Str ''zz'')
   \<and> fst (delete one_entry_store 1000 (Lit (Str ''zz'')) True) = Inl (KeyError (Str ''zz''))
   \<and> contents (snd (delete one_entry_store 1000 (Lit (Str ''zz'')) True))
       = contents one_entry_store
   \<and> fst (get one_entry_store 1000 (Lit (Str ''zz'')) (PyStr ''none'') False False True)
       = Inr (PyStr ''none'')
   \<and> \<not> absent 1000 one_entry_store (Str ''k'')
   \<and> fst (delete one_entry_store 1000 (Lit (Str ''k'')) True) = Inr ()
   \<and> contents (snd (delete one_entry_store 1000 (Lit (Str ''k'')) True)) = []"
proof -
  let ?c = "blank\<lparr>rows := [(Str ''k'', (PyStr ''v'', Some 2000, PyStr ''t''))]\<rparr>"
  have f: "faults ?c = []" by (simp add: blank_def)
  have kz: "key_of one_entry_store (Lit (Str ''zz'')) = Inr (Str ''zz'')"
    and kk: "key_of one_entry_store (Lit (Str ''k'')) = Inr (Str ''k'')"
    by (simp_all add: key_of_def)
  have az: "absent 1000 one_entry_store (Str ''zz'')"
    by (simp add: absent_def one_entry_cache lookup_def)
  have ak: "\<not> absent 1000 one_entry_store (Str ''k'')"
    by (simp add: absent_def one_entry_cache lookup_def live_def)
  have co: "contents one_entry_store = [(Str ''k'', (PyStr ''v'', Some 2000, PyStr ''t''))]"
    by (simp add: contents_def one_entry_cache)
  from delete_get_absent [OF one_entry_cache f kz, of 1000 True "PyStr ''none''"] az
  have 1: "fst (delete one_entry_store 1000 (Lit (Str ''zz'')) True) = Inl (KeyError (Str ''zz''))
       \<and> contents (snd (delete one_entry_store 1000 (Lit (Str ''zz'')) True))
            = contents one_entry_store
       \<and> fst (get one_entry_store 1000 (Lit (Str ''zz'')) (PyStr ''none'') False False True)
            = Inr (PyStr ''none'')"
    by simp
  from delete_get_absent [OF one_entry_cache f kk, of 1000 True "PyStr ''none''"] ak co
  have 2: "fst (delete one_entry_store 1000 (Lit (Str ''k'')) True) = Inr ()
       \<and> contents (snd (delete one_entry_store 1000 (Lit (Str ''k'')) True)) = []"
    by simp
  from az ak 1 2 show ?thesis by blast
qed

section \<open>Add and set\<close>


section \<open>Expiration of a set\<close>

text \<open>
  Claim C9, as the code has it. \<^verbatim>\<open>expire = expire or self.expire\<close>: a \<^verbatim>\<open>ttl\<close> of
  \<^verbatim>\<open>None\<close> or of zero gives the entry the default expiration of the namespace, and a
  non-zero \<^verbatim>\<open>ttl\<close> makes the entry expire \<^verbatim>\<open>ttl\<close> seconds after the write.
\<close>

theorem set_expiration:
  assumes "cache ds = Some c" and "faults c = []" and "key_of ds key = Inr k"
  shows "(ttl = None \<or> ttl = Some 0 \<longrightarrow>
            stored (snd (set_ds ds now key v ttl tg closing)) k
              = Some (v, map_option (\<lambda>e. now + e) (expire ds), tg))
       \<and> (\<forall>e. ttl = Some e \<and> e \<noteq> 0 \<longrightarrow>
            stored (snd (set_ds ds now key v ttl tg closing)) k = Some (v, Some (now + e), tg))"
  using assms by (auto simp add: set_no_fault stored_def map_of_upsert py_or_def)

text \<open>
  Claim C9 as stated fails for an explicit \<^verbatim>\<open>ttl\<close> of zero: with a default of 60
  seconds, \<^verbatim>\<open>set(k, v, expire=0)\<close> at time 1000 stores an entry that expires at 1060,
  not at 1000.
\<close>

theorem set_zero_ttl_uses_default:
  "stored (snd (set_ds ttl_store 1000 (Lit (Str ''k'')) (PyStr ''v'') (Some 0) PyNone True))
     (Str ''k'') = Some (PyStr ''v'', Some 1060, PyNone)"
  by (simp add: set_ds_def key_of_def ttl_store_def base_store_def blank_def with_cache_def
      fc_set_def enter_def py_or_def finish_def close_def fc_close_def stored_def)

lemma ttl_cache: "cache ttl_store = Some blank"
  by (simp add: ttl_store_def)

lemma blank_faults: "faults blank = []"
  by (simp add: blank_def)


theorem set_expiration_witness:
  "stored (snd (set_ds ttl_store 1000 (Lit (Str ''k'')) (PyStr ''v'') None PyNone True)) (Str ''k'')
     = Some (PyStr ''v'', Some 1060, PyNone)
   \<and> stored (snd (set_ds ttl_store 1000 (Lit (Str ''k'')) (PyStr ''v'') (Some 30) PyNone True))
       (Str ''k'') = Some (PyStr ''v'', Some 1030, PyNone)"
proof -
  have k: "key_of ttl_store (Lit (Str ''k'')) = Inr (Str ''k'')" by (simp add: key_of_def)
  have e: "expire ttl_store = Some 60" by (simp add: ttl_store_def)
  from set_expiration [OF ttl_cache blank_faults k, of None 1000 "PyStr ''v''" PyNone True] e
  have 1: "stored (snd (set_ds ttl_store 1000 (Lit (Str ''k'')) (PyStr ''v'') None PyNone True))
             (Str ''k'') = Some (PyStr ''v'', Some 1060, PyNone)" by simp
  from set_expiration [OF ttl_cache blank_faults k, of "Some 30" 1000 "PyStr ''v''" PyNone True]
  have 2: "stored (snd (set_ds ttl_store 1000 (Lit (Str ''k'')) (PyStr ''v'') (Some 30) PyNone True))
             (Str ''k'') = Some (PyStr ''v'', Some 1030, PyNone)" by simp
  from 1 2 show ?thesis by simp
qed

section \<open>Prefix query\<close>

text \<open>
  Claim C3. Namespace \<^verbatim>\<open>cfg\<close>, delimiter \<^verbatim>\<open>:\<close>, a store holding exactly the keys
  \<^verbatim>\<open>cfg:Job.Foo:a\<close> and \<^verbatim>\<open>cfg:Job.FooBar:b\<close> (in either iteration order, neither
  expired): \<^verbatim>\<open>get_startswith(["Job.Foo"])\<close> returns the first key alone with its
  value, and with \<^verbatim>\<open>match_part=True\<close> it returns both, in iteration order.
\<close>

theorem get_startswith_exact_boundary:
  assumes "name ds = ''cfg''" and "delim ds = '':''"
    and "cache ds = Some c" and "faults c = []"
    and "rows c = [(Str ''cfg:Job.Foo:a'', e1), (Str ''cfg:Job.FooBar:b'', e2)]
         \<or> rows c = [(Str ''cfg:Job.FooBar:b'', e2), (Str ''cfg:Job.Foo:a'', e1)]"
    and "live now e1" and "live now e2"
  shows "fst (get_startswith ds now (Key (Seq [Str ''Job.Foo''])) False False False False)
           = Inr (Listed [KV (Str ''cfg:Job.Foo:a'') (fst e1)])
       \<and> fst (get_startswith ds now (Key (Seq [Str ''Job.Foo''])) True False False False)
           = Inr (Listed (map (\<lambda>r. KV (fst r) (fst (snd r))) (rows c)))"
proof -
  have mk: "makey_str ds [Str ''Job.Foo''] = Inr ''cfg:Job.Foo''"
    using assms(1,2) by (simp add: makey_str_def makey_def makey_elts_def)
  have gi: "fc_getitem now (c\<lparr>opened := True\<rparr>) (Str ''cfg:Job.Foo:a'')
              = (Inr (fst e1), c\<lparr>opened := True\<rparr>)"
       "fc_getitem now (c\<lparr>opened := True\<rparr>) (Str ''cfg:Job.FooBar:b'')
              = (Inr (fst e2), c\<lparr>opened := True\<rparr>)"
    using assms(4-7) by (auto simp add: fc_getitem_def enter_def lookup_def)
  have ks: "fc_keys c = (Inr (map fst (rows c)), c\<lparr>opened := True\<rparr>)"
    using assms(4) by (simp add: fc_keys_def enter_def)
  from assms(5) show ?thesis
  proof
    assume r: "rows c = [(Str ''cfg:Job.Foo:a'', e1), (Str ''cfg:Job.FooBar:b'', e2)]"
    show ?thesis
      using assms(2,3) r
      by (simp add: get_startswith_def mk with_cache_def ks gi close_def fc_close_def)
  next
    assume r: "rows c = [(Str ''cfg:Job.FooBar:b'', e2), (Str ''cfg:Job.Foo:a'', e1)]"
    show ?thesis
      using assms(2,3) r
      by (simp add: get_startswith_def mk with_cache_def ks gi close_def fc_close_def)
  qed
qed

lemma jobs_cache:
  "cache jobs_store
     = Some (blank\<lparr>rows := [(Str ''cfg:Job.Foo:a'', (PyNum 1, None, PyNone)),
                            (Str ''cfg:Job.FooBar:b'', (PyNum 2, None, PyNone))]\<rparr>)"
  by (simp add: jobs_store_def)

theorem get_startswith_exact_boundary_witness:
  "fst (get_startswith jobs_store 0 (Key (Seq [Str ''Job.Foo''])) False False False False)
     = Inr (Listed [KV (Str ''cfg:Job.Foo:a'') (PyNum 1)])
   \<and> fst (get_startswith jobs_store 0 (Key (Seq [Str ''Job.Foo''])) True False False False)
     = Inr (Listed [KV (Str ''cfg:Job.Foo:a'') (PyNum 1), KV (Str ''cfg:Job.FooBar:b'') (PyNum 2)])"
proof -
  let ?c = "blank\<lparr>rows := [(Str ''cfg:Job.Foo:a'', (PyNum 1, None, PyNone)),
                            (Str ''cfg:Job.FooBar:b'', (PyNum 2, None, PyNone))]\<rparr>"
  have n: "name jobs_store = ''cfg''" and d: "delim jobs_store = '':''"
    by (simp_all add: jobs_store_def cfg_store_def base_store_def)
  have f: "faults ?c = []" by (simp add: blank_def)
  have r: "rows ?c = [(Str ''cfg:Job.Foo:a'', (PyNum 1, None, PyNone)),
                      (Str ''cfg:Job.FooBar:b'', (PyNum 2, None, PyNone))]
           \<or> rows ?c = [(Str ''cfg:Job.FooBar:b'', (PyNum 2, None, PyNone)),
                        (Str ''cfg:Job.Foo:a'', (PyNum 1, None, PyNone))]"
    by simp
  have l1: "live 0 (PyNum 1, None, PyNone)" and l2: "live 0 (PyNum 2, None, PyNone)"
    by (simp_all add: live_def)
  from get_startswith_exact_boundary [OF n d jobs_cache f r l1 l2]
  show ?thesis by simp
qed

section \<open>Release of the handle\<close>

lemma close_released: "close d = (Inr u, d') \<Longrightarrow> released d'"
  by (auto simp add: close_def with_cache_def fc_close_def released_def split: option.splits)

lemma finish_released: "finish True v d = (Inr r, d') \<Longrightarrow> released d'"
  by (auto simp add: finish_def split: prod.splits sum.splits dest: close_released)

lemma get_released: "get ds now key dflt et tg True = (Inr r, d') \<Longrightarrow> released d'"
  by (auto simp add: get_def split: sum.splits prod.splits dest: finish_released)

lemma set_released: "set_ds ds now key v ttl tg True = (Inr r, d') \<Longrightarrow> released d'"
  by (auto simp add: set_ds_def split: sum.splits prod.splits dest: finish_released)

lemma add_released: "add ds now key v ttl tg True = (Inr r, d') \<Longrightarrow> released d'"
  by (auto simp add: add_def split: sum.splits prod.splits dest: finish_released)

lemma delete_released: "delete ds now key True = (Inr r, d') \<Longrightarrow> released d'"
  by (auto simp add: delete_def split: sum.splits prod.splits bool.splits dest: finish_released)

lemma items_released: "items ds now as_dict = (Inr r, d') \<Longrightarrow> released d'"
  by (auto simp add: items_def split: sum.splits prod.splits dest: close_released)

lemma get_startswith_released:
  "get_startswith ds now (Key ka) mp ad ko sk = (Inr r, d') \<Longrightarrow> released d'"
  by (auto simp add: get_startswith_def Let_def split: sum.splits prod.splits dest: close_released)

lemma clear_released: "clear ds True = (Inr r, d') \<Longrightarrow> released d'"
  by (auto simp add: clear_def split: sum.splits prod.splits dest: finish_released)

lemma clear_keys_released: "clear_keys ds now m True = (Inr r, d') \<Longrightarrow> released d'"
  by (auto simp add: clear_keys_def split: sum.splits prod.splits listing.splits dest: finish_released)

lemma evict_released: "evict ds tg = (Inr r, d') \<Longrightarrow> released d'"
  by (auto simp add: evict_def split: sum.splits prod.splits dest: finish_released)

lemma expire_released: "expire_method ds now = (Inr r, d') \<Longrightarrow> released d'"
  by (auto simp add: expire_method_def split: sum.splits prod.splits dest: finish_released)

lemma check_released: "check ds fix = (Inr r, d') \<Longrightarrow> released d'"
  by (auto simp add: check_def split: sum.splits prod.splits dest: finish_released)

lemma volume_released: "volume ds = (Inr r, d') \<Longrightarrow> released d'"
  by (auto simp add: volume_def split: sum.splits prod.splits dest: finish_released)

lemma closes_on_returnI:
  "(\<And>r d'. out = (Inr r, d') \<Longrightarrow> released d') \<Longrightarrow> closes_on_return out"
  by (cases out) (auto simp add: closes_on_return_def)

text \<open>
  Claim C2, as the code has it. The operations close the handle as their last step, with
  no handler around the engine call. So, called with the default \<^verbatim>\<open>close=True\<close>, each
  of them leaves the handle closed whenever it returns; \<^verbatim>\<open>get_startswith\<close> given a
  match argument of an unsupported type returns the empty list at once and leaves the
  object as it was.
\<close>

theorem default_close_releases_on_return:
  "closes_on_return (get ds now key dflt et tg True)
   \<and> closes_on_return (set_ds ds now key v ttl tg' True)
   \<and> closes_on_return (add ds now key v ttl tg' True)
   \<and> closes_on_return (delete ds now key True)
   \<and> closes_on_return (items ds now as_dict)
   \<and> closes_on_return (get_startswith ds now (Key ka) mp ad ko sk)
   \<and> get_startswith ds now Other mp ad ko sk = (Inr (Listed []), ds)
   \<and> closes_on_return (clear ds True)
   \<and> closes_on_return (clear_keys ds now m True)
   \<and> closes_on_return (evict ds tg')
   \<and> closes_on_return (expire_method ds now)
   \<and> closes_on_return (check ds fx)
   \<and> closes_on_return (volume ds)"
proof (intro conjI)
  show "closes_on_return (get ds now key dflt et tg True)"
    by (rule closes_on_returnI) (rule get_released)
  show "closes_on_return (set_ds ds now key v ttl tg' True)"
    by (rule closes_on_returnI) (rule set_released)
  show "closes_on_return (add ds now key v ttl tg' True)"
    by (rule closes_on_returnI) (rule add_released)
  show "closes_on_return (delete ds now key True)"
    by (rule closes_on_returnI) (rule delete_released)
  show "closes_on_return (items ds now as_dict)"
    by (rule closes_on_returnI) (rule items_released)
  show "closes_on_return (get_startswith ds now (Key ka) mp ad ko sk)"
    by (rule closes_on_returnI) (rule get_startswith_released)
  show "get_startswith ds now Other mp ad ko sk = (Inr (Listed []), ds)"
    by (simp add: get_startswith_def)
  show "closes_on_return (clear ds True)"
    by (rule closes_on_returnI) (rule clear_released)
  show "closes_on_return (clear_keys ds now m True)"
    by (rule closes_on_returnI) (rule clear_keys_released)
  show "closes_on_return (evict ds tg')"
    by (rule closes_on_returnI) (rule evict_released)
  show "closes_on_return (expire_method ds now)"
    by (rule closes_on_returnI) (rule expire_released)
  show "closes_on_return (check ds fx)"
    by (rule closes_on_returnI) (rule check_released)
  show "closes_on_return (volume ds)"
    by (rule closes_on_returnI) (rule volume_released)
qed

lemmas eval_defs = one_entry_store_def base_store_def blank_def with_cache_def enter_def
  finish_def close_def fc_close_def key_of_def lookup_def live_def shape_def Let_def

text \<open>
  Claim C2 as stated fails on the paths that raise. From a closed handle,
  \<^verbatim>\<open>delete\<close> of an absent key raises \<^verbatim>\<open>KeyError\<close> after the membership test and
  leaves the handle open; \<^verbatim>\<open>get\<close> whose engine call raises a timeout leaves it open
  as well.
\<close>

theorem raising_call_leaves_handle_open:
  "released one_entry_store
   \<and> fst (delete one_entry_store 1000 (Lit (Str ''zz'')) True) = Inl (KeyError (Str ''zz''))
   \<and> \<not> released (snd (delete one_entry_store 1000 (Lit (Str ''zz'')) True))
   \<and> released faulty_store
   \<and> fst (get faulty_store 1000 (Lit (Str ''k'')) PyNone False False True)
       = Inl (EngineFailure ''timeout'')
   \<and> \<not> released (snd (get faulty_store 1000 (Lit (Str ''k'')) PyNone False False True))"
  by (simp add: released_def delete_def get_def fc_contains_def fc_get_def faulty_store_def eval_defs)

lemma closes_on_returnD:
  "closes_on_return out \<Longrightarrow> fst out = Inr r \<Longrightarrow> released (snd out)"
  by (auto simp add: closes_on_return_def)

theorem default_close_releases_on_return_witness:
  "(fst (get one_entry_store 1000 (Lit (Str ''k'')) PyNone False False True) = Inr (PyStr ''v'')
      \<and> released (snd (get one_entry_store 1000 (Lit (Str ''k'')) PyNone False False True)))
   \<and> (fst (set_ds one_entry_store 1000 (Lit (Str ''k'')) (PyStr ''w'') None (PyStr ''t'') True) = Inr ()
      \<and> released (snd (set_ds one_entry_store 1000 (Lit (Str ''k'')) (PyStr ''w'') None (PyStr ''t'') True)))
   \<and> (fst (add one_entry_store 1000 (Lit (Str ''k'')) (PyStr ''w'') None (PyStr ''t'') True) = Inr ()
      \<and> released (snd (add one_entry_store 1000 (Lit (Str ''k'')) (PyStr ''w'') None (PyStr ''t'') True)))
   \<and> (fst (delete one_entry_store 1000 (Lit (Str ''k'')) True) = Inr ()
      \<and> released (snd (delete one_entry_store 1000 (Lit (Str ''k'')) True)))
   \<and> (fst (items one_entry_store 1000 False) = Inr (Listed [KV (Str ''k'') (PyStr ''v'')])
      \<and> released (snd (items one_entry_store 1000 False)))
   \<and> (fst (get_startswith one_entry_store 1000 (Key (Lit (Str ''k''))) True False False False)
        = Inr (Listed [KV (Str ''k'') (PyStr ''v'')])
      \<and> released (snd (get_startswith one_entry_store 1000 (Key (Lit (Str ''k''))) True False False False)))
   \<and> (fst (clear one_entry_store True) = Inr ()
      \<and> released (snd (clear one_entry_store True)))
   \<and> (fst (clear_keys one_entry_store 1000 (Key (Lit (Str ''k''))) True) = Inr ()
      \<and> released (snd (clear_keys one_entry_store 1000 (Key (Lit (Str ''k''))) True)))
   \<and> (fst (evict one_entry_store (PyStr ''t'')) = Inr 1
      \<and> released (snd (evict one_entry_store (PyStr ''t''))))
   \<and> (fst (expire_method one_entry_store 1000) = Inr 0
      \<and> released (snd (expire_method one_entry_store 1000)))
   \<and> (fst (check one_entry_store True) = Inr []
      \<and> released (snd (check one_entry_store True)))
   \<and> (fst (volume one_entry_store) = Inr 0
      \<and> released (snd (volume one_entry_store)))"
proof -
  note inst = default_close_releases_on_return [where ds = one_entry_store and now = 1000
      and key = "Lit (Str ''k'')" and dflt = PyNone and et = False and tg = False
      and v = "PyStr ''w''" and ttl = None and ?tg' = "PyStr ''t''" and as_dict = False
      and ka = "Lit (Str ''k'')" and mp = True and ad = False and ko = False and sk = False
      and m = "Key (Lit (Str ''k''))" and fx = True]
  have 1: "fst (get one_entry_store 1000 (Lit (Str ''k'')) PyNone False False True) = Inr (PyStr ''v'')"
    by (simp add: get_def fc_get_def eval_defs)
  have 2: "fst (set_ds one_entry_store 1000 (Lit (Str ''k'')) (PyStr ''w'') None (PyStr ''t'') True) = Inr ()"
    by (simp add: set_ds_def fc_set_def eval_defs)
  have 3: "fst (add one_entry_store 1000 (Lit (Str ''k'')) (PyStr ''w'') None (PyStr ''t'') True) = Inr ()"
    by (simp add: add_def fc_add_def eval_defs)
  have 4: "fst (delete one_entry_store 1000 (Lit (Str ''k'')) True) = Inr ()"
    by (simp add: delete_def fc_contains_def fc_delitem_def eval_defs)
  have 5: "fst (items one_entry_store 1000 False) = Inr (Listed [KV (Str ''k'') (PyStr ''v'')])"
    by (simp add: items_def fc_keys_def get_def fc_get_def eval_defs)
  have 6: "fst (get_startswith one_entry_store 1000 (Key (Lit (Str ''k''))) True False False False)
             = Inr (Listed [KV (Str ''k'') (PyStr ''v'')])"
    by (simp add: get_startswith_def makey_str_def makey_def makey_elts_def fc_keys_def
        fc_getitem_def eval_defs)
  have 7: "fst (clear one_entry_store True) = Inr ()"
    by (simp add: clear_def fc_clear_def eval_defs)
  have 8: "fst (clear_keys one_entry_store 1000 (Key (Lit (Str ''k''))) True) = Inr ()"
    by (simp add: clear_keys_def get_startswith_def makey_str_def makey_def makey_elts_def
        fc_keys_def fc_delitem_def eval_defs)
  have 9: "fst (evict one_entry_store (PyStr ''t'')) = Inr 1"
    by (simp add: evict_def fc_evict_def eval_defs)
  have 10: "fst (expire_method one_entry_store 1000) = Inr 0"
    by (simp add: expire_method_def fc_expire_def eval_defs)
  have 11: "fst (check one_entry_store True) = Inr []"
    by (simp add: check_def fc_check_def eval_defs)
  have 12: "fst (volume one_entry_store) = Inr 0"
    by (simp add: volume_def fc_volume_def eval_defs)
  from inst show ?thesis
    by (intro conjI 1 2 3 4 5 6 7 8 9 10 11 12)
       (blast intro: closes_on_returnD 1 2 3 4 5 6 7 8 9 10 11 12)+
qed

end
